theory Spec2Isabelle
  imports Main
begin

section \<open>Values, tokens and claimed groups\<close>

text \<open>
  A shallow embedding of \<^verbatim>\<open>src/index.ts\<close>. A JavaScript string is a list of UTF-16 code
  units; every operation the source performs on strings (\<^verbatim>\<open>s[i]\<close>, \<^verbatim>\<open>slice\<close>,
  \<^verbatim>\<open>search("=")\<close>, \<^verbatim>\<open>includes\<close>, \<^verbatim>\<open>===\<close>) works unit by unit, so a token is a
  \<^typ>\<open>string\<close> whose elements stand for the code units.
\<close>

text \<open>The values a handler can extract: \<^verbatim>\<open>undefined\<close>, \<^verbatim>\<open>null\<close>, booleans, strings,
  arrays (of \<^verbatim>\<open>repeat\<close>) and the result objects of \<^verbatim>\<open>doValues\<close>. An object is its
  prototype (\<open>None\<close> is \<^verbatim>\<open>Object.prototype\<close>, which a literal \<^verbatim>\<open>{}\<close> has) and its own
  properties, in the order in which the language enumerates them.\<close>

datatype jsval =
    JUndefined
  | JNull
  | JBool bool
  | JStr string
  | JArr "jsval list"
  | JObj "jsval option" "(string \<times> jsval) list"

text \<open>What a value function produces: a value, a \<^verbatim>\<open>MatchError\<close> (returned, recoverable),
  or a thrown \<^verbatim>\<open>Error\<close> (the panic of \<^verbatim>\<open>oneof\<close>).\<close>

datatype vres = VOk jsval | VFail string | VThrow string

text \<open>
  A claimed group is the array object a scan returns. \<^verbatim>\<open>oneof\<close> keeps a \<^verbatim>\<open>WeakMap\<close>
  keyed by the identity of that array: the array is allocated by the scan that records it
  (\<^verbatim>\<open>args.slice\<close>), \<^verbatim>\<open>doScan\<close> and \<^verbatim>\<open>repeat\<close> hand the same reference on, so the
  table entry is a field of the group. The field names the table (the number of the handler
  object whose \<^verbatim>\<open>as\<close> call allocated it). The recorded pair \<^verbatim>\<open>{mapres, opt}\<close> is read
  only by \<^verbatim>\<open>opt.doValues(mapres)\<close>, a function of the two, so the entry holds that result.
\<close>

datatype group = Group (toks: "string list") (entry: "(nat \<times> vres) option")

text \<open>\<^verbatim>\<open>string[] | undefined | MatchError\<close>\<close>

datatype sres = Claimed group | NoClaim | SFail string

text \<open>
  \<^verbatim>\<open>class Handler\<close>: the two closures \<^verbatim>\<open>scan\<close> and \<^verbatim>\<open>value\<close> (here \<open>value_fn\<close>) and
  \<^verbatim>\<open>opts\<close> (\<^verbatim>\<open>help\<close> and \<^verbatim>\<open>group\<close> are never read by the engine). \<open>hid\<close> is the
  identity of the object, the key of \<^verbatim>\<open>mapres\<close>.
  A scan that calls \<^verbatim>\<open>doScan\<close> returns only if that loop does: \<open>None\<close> is a call that
  does not return.
\<close>

record handler =
  hid :: nat
  scan :: "string list \<Rightarrow> nat \<Rightarrow> group list \<Rightarrow> sres option"
  value_fn :: "group list \<Rightarrow> vres"
  key :: string
  activators :: "string list option"

text \<open>\<^verbatim>\<open>Map<Handler, string[][]>\<close>; a handler without an entry reads as \<^verbatim>\<open>[]\<close>
  (\<^verbatim>\<open>mapres.get(h) ?? []\<close>).\<close>

type_synonym mapres = "nat \<Rightarrow> group list"

subsection \<open>JavaScript primitives\<close>

text \<open>\<^verbatim>\<open>xs[i]\<close>: \<^verbatim>\<open>undefined\<close> out of range.\<close>

definition at :: "'a list \<Rightarrow> nat \<Rightarrow> 'a option" where
  "at xs i = (if i < length xs then Some (xs ! i) else None)"

text \<open>\<^verbatim>\<open>xs.slice(a, b)\<close> and \<^verbatim>\<open>xs.slice(a)\<close> for non-negative indices.\<close>

definition slice :: "'a list \<Rightarrow> nat \<Rightarrow> nat \<Rightarrow> 'a list" where
  "slice xs a b = take (b - a) (drop a xs)"

definition slice_from :: "'a list \<Rightarrow> nat \<Rightarrow> 'a list" where
  "slice_from xs a = drop a xs"

text \<open>\<^verbatim>\<open>xs.join(sep)\<close>; an array in a template literal is \<^verbatim>\<open>xs.join(",")\<close>.\<close>

fun join :: "string \<Rightarrow> string list \<Rightarrow> string" where
  "join sep [] = []"
| "join sep [x] = x"
| "join sep (x # y # ys) = x @ sep @ join sep (y # ys)"

definition dq :: string where
  "dq = [CHR 0x22]"

text \<open>\<^verbatim>\<open>v == null\<close>\<close>

fun nullish :: "jsval \<Rightarrow> bool" where
  "nullish JUndefined = True"
| "nullish JNull = True"
| "nullish _ = False"

text \<open>
  \<^verbatim>\<open>res[k] = r\<close> on an object that started as the literal \<^verbatim>\<open>{}\<close>.

  A key that is not an own property is looked up along the prototype chain. The only
  accessor there is \<^verbatim>\<open>__proto__\<close> of \<^verbatim>\<open>Object.prototype\<close>; every other property on the
  chain is a writable data property. When the assignment reaches the accessor it runs the
  setter, which creates no property: it replaces the prototype when \<open>r\<close> is an object or
  \<^verbatim>\<open>null\<close> and does nothing otherwise. In every other case the key is an own data
  property: an existing one keeps its place and takes the new value; a new one that is an
  array index (the canonical decimal form of an integer from 0 to \<^verbatim>\<open>2**32 - 2\<close>) is
  enumerated among the array indices, in ascending numeric order and before all other keys;
  any other new key comes last.
\<close>

definition digits :: string where
  "digits = ''0123456789''"

definition digit_value :: "char \<Rightarrow> nat" where
  "digit_value c = length (takeWhile (\<lambda>d. d \<noteq> c) digits)"

text \<open>The numeric order of canonical decimal forms: by length, then digit by digit.\<close>

fun digits_less :: "string \<Rightarrow> string \<Rightarrow> bool" where
  "digits_less (a # as) (b # bs) =
     (digit_value a < digit_value b \<or> (a = b \<and> digits_less as bs))"
| "digits_less _ _ = False"

definition index_less :: "string \<Rightarrow> string \<Rightarrow> bool" where
  "index_less a b = (length a < length b \<or> (length a = length b \<and> digits_less a b))"

definition is_array_index :: "string \<Rightarrow> bool" where
  "is_array_index k =
     (k \<noteq> [] \<and> list_all (\<lambda>c. c \<in> set digits) k \<and> (k = ''0'' \<or> take 1 k \<noteq> ''0'')
      \<and> index_less k ''4294967295'')"

fun insert_index ::
  "string \<Rightarrow> jsval \<Rightarrow> (string \<times> jsval) list \<Rightarrow> (string \<times> jsval) list" where
  "insert_index k r [] = [(k, r)]"
| "insert_index k r ((k', v) # ps) =
     (if is_array_index k' \<and> index_less k' k then (k', v) # insert_index k r ps
      else (k, r) # (k', v) # ps)"

definition set_prop :: "string \<Rightarrow> jsval \<Rightarrow> (string \<times> jsval) list \<Rightarrow> (string \<times> jsval) list" where
  "set_prop k r ps =
     (if k \<in> set (map fst ps) then map (\<lambda>(k', v). if k' = k then (k', r) else (k', v)) ps
      else if is_array_index k then insert_index k r ps
      else ps @ [(k, r)])"

fun object_or_null :: "jsval \<Rightarrow> bool" where
  "object_or_null JNull = True"
| "object_or_null (JArr _) = True"
| "object_or_null (JObj _ _) = True"
| "object_or_null _ = False"

text \<open>Whether the lookup of \<^verbatim>\<open>__proto__\<close> that starts at the object \<open>q\<close> (a prototype: an
  object or \<^verbatim>\<open>null\<close>) ends at the accessor of \<^verbatim>\<open>Object.prototype\<close>. An array has no own
  property of that name and inherits from \<^verbatim>\<open>Array.prototype\<close>.\<close>

fun reaches_setter :: "jsval \<Rightarrow> bool" where
  "reaches_setter JNull = False"
| "reaches_setter (JObj proto ps) =
     (''__proto__'' \<notin> set (map fst ps)
      \<and> (case proto of None \<Rightarrow> True | Some q \<Rightarrow> reaches_setter q))"
| "reaches_setter _ = True"

definition assign :: "string \<Rightarrow> jsval \<Rightarrow> jsval option \<times> (string \<times> jsval) list
    \<Rightarrow> jsval option \<times> (string \<times> jsval) list" where
  "assign k r res =
     (if k = ''__proto__'' \<and> reaches_setter (JObj (fst res) (snd res)) then
        (if object_or_null r then (Some r, snd res) else res)
      else (fst res, set_prop k r (snd res)))"

section \<open>The token normalizer\<close>

text \<open>The inner loop \<^verbatim>\<open>for (let i = 1; i < l; i++)\<close> of \<^verbatim>\<open>expand_flags\<close>, on the code
  units from index \<open>i\<close> on.\<close>

fun ventilate :: "string \<Rightarrow> string list" where
  "ventilate [] = []"
| "ventilate (c # cs) =
     (if c = CHR ''='' then [cs] else (CHR ''-'' # [c]) # ventilate cs)"

text \<open>What one \<^verbatim>\<open>arg\<close> pushes on \<^verbatim>\<open>res\<close>.\<close>

definition expand_arg :: "string \<Rightarrow> string list" where
  "expand_arg arg =
     (if at arg 0 = Some CHR ''-'' \<and> at arg 1 \<noteq> Some CHR ''-'' then ventilate (slice_from arg 1)
      else if at arg 0 = Some CHR ''-'' \<and> at arg 1 = Some CHR ''-'' \<and> CHR ''='' \<in> set arg then
        (let first = length (takeWhile (\<lambda>c. c \<noteq> CHR ''='') arg)
         in [slice arg 0 first, slice_from arg (first + 1)])
      else [arg])"

fun expand_loop :: "string list \<Rightarrow> string list \<Rightarrow> string list" where
  "expand_loop res [] = res"
| "expand_loop res (arg # argv) = expand_loop (res @ expand_arg arg) argv"

definition expand_flags :: "string list \<Rightarrow> string list" where
  "expand_flags argv = expand_loop [] argv"

text \<open>The normalizer as the specification words it, token by token.\<close>

definition single_dash :: "string \<Rightarrow> bool" where
  "single_dash t = (take 1 t = ''-'' \<and> take 2 t \<noteq> ''--'')"

definition double_dash_eq :: "string \<Rightarrow> bool" where
  "double_dash_eq t = (take 2 t = ''--'' \<and> CHR ''='' \<in> set t)"

definition before_eq :: "string \<Rightarrow> string" where
  "before_eq t = takeWhile (\<lambda>c. c \<noteq> CHR ''='') t"

definition after_eq :: "string \<Rightarrow> string" where
  "after_eq t = drop 1 (dropWhile (\<lambda>c. c \<noteq> CHR ''='') t)"

definition spec_split :: "string \<Rightarrow> string list" where
  "spec_split t =
     (if single_dash t then
        map (\<lambda>c. [CHR ''-'', c]) (before_eq (drop 1 t))
          @ (if CHR ''='' \<in> set (drop 1 t) then [after_eq (drop 1 t)] else [])
      else if double_dash_eq t then [before_eq t, after_eq t]
      else [t])"

definition spec_expand_flags :: "string list \<Rightarrow> string list" where
  "spec_expand_flags argv = concat (map spec_split argv)"

section \<open>The scanning loop and the extraction pass\<close>

text \<open>One pass of \<^verbatim>\<open>for (let h of this.handlers)\<close> inside \<^verbatim>\<open>scanargs\<close>: the first
  handler that claims, a returned \<^verbatim>\<open>MatchError\<close>, or no claim at all (\<^verbatim>\<open>break\<close>).\<close>

datatype pass = PClaim nat group | PFail string | PNone

fun try_handlers :: "handler list \<Rightarrow> string list \<Rightarrow> nat \<Rightarrow> mapres \<Rightarrow> pass option" where
  "try_handlers [] args pos mr = Some PNone"
| "try_handlers (h # hs) args pos mr =
     (case scan h args pos (mr (hid h)) of
        None \<Rightarrow> None
      | Some (SFail m) \<Rightarrow> Some (PFail m)
      | Some NoClaim \<Rightarrow> try_handlers hs args pos mr
      | Some (Claimed res) \<Rightarrow> Some (PClaim (hid h) res))"

text \<open>\<^verbatim>\<open>scanargs: while (pos < l)\<close>. \<open>Inl\<close> is the \<^verbatim>\<open>MatchError\<close> returned from inside the
  loop, \<open>Inr\<close> the state in which the loop ends.\<close>

partial_function (option) scanargs ::
  "handler list \<Rightarrow> string list \<Rightarrow> nat \<Rightarrow> mapres \<Rightarrow> (string + nat \<times> mapres) option" where
  "scanargs hs args pos mr =
     (if pos < length args then
        (case try_handlers hs args pos mr of
           None \<Rightarrow> None
         | Some (PFail m) \<Rightarrow> Some (Inl m)
         | Some PNone \<Rightarrow> Some (Inr (pos, mr))
         | Some (PClaim i res) \<Rightarrow>
             scanargs hs args (pos + length (toks res)) (mr(i := mr i @ [res])))
      else Some (Inr (pos, mr)))"

declare scanargs.simps [code]

definition nothing_consumed :: string where
  "nothing_consumed = ''nothing was consumed''"

definition doScan :: "handler list \<Rightarrow> string list \<Rightarrow> nat \<Rightarrow> (string + nat \<times> mapres) option" where
  "doScan hs args init =
     (case scanargs hs args init (\<lambda>_. []) of
        None \<Rightarrow> None
      | Some (Inl m) \<Rightarrow> Some (Inl m)
      | Some (Inr (pos, mr)) \<Rightarrow>
          if pos = init \<and> pos < length args then Some (Inl nothing_consumed)
          else Some (Inr (pos, mr)))"

fun doValues_loop ::
  "handler list \<Rightarrow> mapres \<Rightarrow> jsval option \<times> (string \<times> jsval) list \<Rightarrow> vres" where
  "doValues_loop [] mr res = VOk (JObj (fst res) (snd res))"
| "doValues_loop (h # hs) mr res =
     (case value_fn h (mr (hid h)) of
        VFail m \<Rightarrow> VFail m
      | VThrow m \<Rightarrow> VThrow m
      | VOk r \<Rightarrow> doValues_loop hs mr (assign (key h) r res))"

text \<open>\<^verbatim>\<open>let res: any = {}\<close>\<close>

definition doValues :: "handler list \<Rightarrow> mapres \<Rightarrow> vres" where
  "doValues hs mr = doValues_loop hs mr (None, [])"

text \<open>\<^verbatim>\<open>parse\<close>: the object, a thrown \<^verbatim>\<open>Error\<close>, or the report of an unrecognized argument
  (\<^verbatim>\<open>args[r.pos]\<close>) followed by \<^verbatim>\<open>process.exit(1)\<close>.\<close>

datatype outcome = Returned jsval | Thrown string | Unrecognized "string option"

definition parse :: "handler list \<Rightarrow> string list \<Rightarrow> outcome option" where
  "parse hs argv =
     (let args = expand_flags argv in
      case doScan hs args 0 of
        None \<Rightarrow> None
      | Some (Inl m) \<Rightarrow> Some (Thrown (''match error: '' @ m))
      | Some (Inr (pos, mr)) \<Rightarrow>
          if pos \<noteq> length args then Some (Unrecognized (at args pos))
          else (case doValues hs mr of
                  VFail m \<Rightarrow> Some (Thrown (''match error: '' @ m))
                | VThrow m \<Rightarrow> Some (Thrown m)
                | VOk r \<Rightarrow> Some (Returned r)))"

section \<open>Primitive handlers\<close>

text \<open>Each constructor takes the identity \<open>i\<close> of the \<^verbatim>\<open>Handler\<close> object it allocates.
  \<^verbatim>\<open>flag(...activators).as(key)\<close> and \<^verbatim>\<open>param(...activators).as(key)\<close> replace an empty
  activator list by \<^verbatim>\<open>["--" + key]\<close>.\<close>

definition default_activators :: "string list \<Rightarrow> string \<Rightarrow> string list" where
  "default_activators acts k = (if length acts = 0 then [''--'' @ k] else acts)"

definition only_once :: "string list \<Rightarrow> string" where
  "only_once acts = dq @ join '','' acts @ dq @ '' can only appear once''"

definition flag :: "nat \<Rightarrow> string list \<Rightarrow> string \<Rightarrow> handler" where
  "flag i acts k =
     (let acts' = default_activators acts k in
      \<lparr> hid = i,
        scan = (\<lambda>args pos acc.
          case at args pos of
            Some arg \<Rightarrow> if arg \<in> set acts' then Some (Claimed (Group [arg] None)) else Some NoClaim
          | None \<Rightarrow> Some NoClaim),
        value_fn = (\<lambda>id.
          if length id > 1 then VFail (only_once acts') else VOk (JBool (length id \<noteq> 0))),
        key = k,
        activators = Some acts' \<rparr>)"

text \<open>\<^verbatim>\<open>next[0] === "-"\<close>\<close>

definition starts_dash :: "string \<Rightarrow> bool" where
  "starts_dash s = (at s 0 = Some CHR ''-'')"

text \<open>\<^verbatim>\<open>args[0]?.[1]\<close> and \<^verbatim>\<open>args[0]?.[0]\<close> on the claimed groups.\<close>

definition group_elem :: "group list \<Rightarrow> nat \<Rightarrow> jsval" where
  "group_elem gs n =
     (case at gs 0 of
        None \<Rightarrow> JUndefined
      | Some g \<Rightarrow> (case at (toks g) n of None \<Rightarrow> JUndefined | Some s \<Rightarrow> JStr s))"

definition param :: "nat \<Rightarrow> string list \<Rightarrow> string \<Rightarrow> handler" where
  "param i acts k =
     (let acts' = default_activators acts k in
      \<lparr> hid = i,
        scan = (\<lambda>args pos acc.
          case at args pos of
            Some arg \<Rightarrow>
              if arg \<in> set acts' then
                Some (Claimed (Group
                  (slice args pos
                     (case at args (pos + 1) of
                        None \<Rightarrow> pos + 1
                      | Some next \<Rightarrow> if starts_dash next then pos + 1 else pos + 2)) None))
              else Some NoClaim
          | None \<Rightarrow> Some NoClaim),
        value_fn = (\<lambda>args.
          if length args > 1 then VFail (only_once acts') else VOk (group_elem args 1)),
        key = k,
        activators = Some acts' \<rparr>)"

text \<open>\<^verbatim>\<open>pos > args.length - 1\<close> is over the integers.\<close>

definition arg :: "nat \<Rightarrow> string \<Rightarrow> handler" where
  "arg i k =
     \<lparr> hid = i,
       scan = (\<lambda>args pos acc.
         if length acc > 0 \<or> int pos > int (length args) - 1 then Some NoClaim
         else Some (Claimed (Group [args ! pos] None))),
       value_fn = (\<lambda>args. VOk (group_elem args 0)),
       key = k,
       activators = None \<rparr>"

definition expect :: "nat \<Rightarrow> string \<Rightarrow> string \<Rightarrow> handler" where
  "expect i v k =
     \<lparr> hid = i,
       scan = (\<lambda>argv pos acc.
         if length acc > 0 then Some NoClaim
         else (case at argv pos of
                 None \<Rightarrow> Some (SFail (''expected '' @ dq @ v @ dq))
               | Some arg' \<Rightarrow>
                   if arg' \<noteq> v then Some (SFail (''expected '' @ dq @ v @ dq))
                   else Some (Claimed (Group [arg'] None)))),
       value_fn = (\<lambda>_. VOk (JStr v)),
       key = k,
       activators = None \<rparr>"

text \<open>The loop \<^verbatim>\<open>for (let o of opt)\<close> of \<^verbatim>\<open>oneof\<close>'s scan, with the \<^verbatim>\<open>errors\<close> pushed
  so far; \<open>wm\<close> names the table the claimed slice is recorded in.\<close>

fun oneof_scan ::
  "nat \<Rightarrow> handler list list \<Rightarrow> string list \<Rightarrow> nat \<Rightarrow> string list \<Rightarrow> sres option" where
  "oneof_scan wm [] args pos errors = Some (SFail (join '', '' errors))"
| "oneof_scan wm (p # opt) args pos errors =
     (case doScan p args pos of
        None \<Rightarrow> None
      | Some (Inl m) \<Rightarrow> oneof_scan wm opt args pos (errors @ [m])
      | Some (Inr (pos', mr)) \<Rightarrow>
          Some (Claimed (Group (slice args pos pos') (Some (wm, doValues p mr)))))"

definition oneof_value :: "nat \<Rightarrow> group list \<Rightarrow> vres" where
  "oneof_value wm args =
     (if length args > 1 then VThrow ''?!''
      else if length args = 0 then VOk JUndefined
      else (case entry (args ! 0) of
              None \<Rightarrow> VOk JUndefined
            | Some (w, r) \<Rightarrow> if w = wm then r else VOk JUndefined))"

definition oneof :: "nat \<Rightarrow> handler list list \<Rightarrow> string \<Rightarrow> handler" where
  "oneof i opt k =
     \<lparr> hid = i,
       scan = (\<lambda>args pos acc. oneof_scan i opt args pos []),
       value_fn = oneof_value i,
       key = k,
       activators = None \<rparr>"

section \<open>Combinators\<close>

text \<open>\<^verbatim>\<open>derive\<close> builds a new object (identity \<open>i\<close>) that shares \<^verbatim>\<open>opts\<close>;
  \<open>map_h\<close> and \<open>default_h\<close> are the methods \<^verbatim>\<open>map\<close> and \<^verbatim>\<open>default\<close>.\<close>

definition derive ::
  "nat \<Rightarrow> (group list \<Rightarrow> vres) \<Rightarrow> (string list \<Rightarrow> nat \<Rightarrow> group list \<Rightarrow> sres option) \<Rightarrow> handler \<Rightarrow> handler" where
  "derive i v s h = \<lparr> hid = i, scan = s, value_fn = v, key = key h, activators = activators h \<rparr>"

definition must_be_specified :: "handler \<Rightarrow> string" where
  "must_be_specified h =
     dq @ (case activators h of Some acts \<Rightarrow> join '','' acts | None \<Rightarrow> key h) @ dq
       @ '' must be specified''"

definition required :: "nat \<Rightarrow> handler \<Rightarrow> handler" where
  "required i h =
     derive i (\<lambda>strs.
       case value_fn h strs of
         VThrow m \<Rightarrow> VThrow m
       | VFail m \<Rightarrow> VFail m
       | VOk res \<Rightarrow> if nullish res then VFail (must_be_specified h) else VOk res)
     (scan h) h"



text \<open>The value loop of \<^verbatim>\<open>repeat\<close>: \<^verbatim>\<open>for (let s of strs)\<close> with the \<^verbatim>\<open>res\<close> pushed so
  far.\<close>

fun repeat_loop :: "(group list \<Rightarrow> vres) \<Rightarrow> jsval list \<Rightarrow> group list \<Rightarrow> vres" where
  "repeat_loop v res [] = VOk (JArr res)"
| "repeat_loop v res (s # strs) =
     (case v [s] of
        VThrow m \<Rightarrow> VThrow m
      | VFail m \<Rightarrow> VFail m
      | VOk sres \<Rightarrow> if nullish sres then repeat_loop v res strs
                    else repeat_loop v (res @ [sres]) strs)"

definition repeat :: "nat \<Rightarrow> handler \<Rightarrow> handler" where
  "repeat i h =
     derive i (\<lambda>strs. repeat_loop (value_fn h) [] strs)
       (\<lambda>args pos acc. scan h args pos []) h"


section \<open>Notions used to state the properties\<close>

text \<open>\<^verbatim>\<open>repeat\<close> as the specification words it: the base value function applied to each
  claimed group on its own; the first result that is not a value ends the extraction and is
  the whole result; otherwise the present values, in claimed order.\<close>

fun stops :: "vres \<Rightarrow> bool" where
  "stops (VOk _) = False"
| "stops _ = True"

fun present :: "vres \<Rightarrow> jsval list" where
  "present (VOk x) = (if nullish x then [] else [x])"
| "present _ = []"

definition spec_repeat_value :: "(group list \<Rightarrow> vres) \<Rightarrow> group list \<Rightarrow> vres" where
  "spec_repeat_value v strs =
     (let rs = map (\<lambda>s. v [s]) strs in
      case find stops rs of
        Some f \<Rightarrow> f
      | None \<Rightarrow> VOk (JArr (concat (map present rs))))"





text \<open>What a scan run leaves behind, in comparable form: the final position and the token
  groups in the accumulators of the handlers \<open>ids\<close>.\<close>

definition run_summary ::
  "handler list \<Rightarrow> string list \<Rightarrow> nat \<Rightarrow> nat list \<Rightarrow> (string + nat \<times> string list list list) option" where
  "run_summary hs args init ids =
     map_option (map_sum id (\<lambda>(pos, mr). (pos, map (\<lambda>i. map toks (mr i)) ids)))
       (doScan hs args init)"


section \<open>The token normalizer meets its description\<close>

lemma expand_loop_append: "expand_loop res argv = res @ concat (map expand_arg argv)"
  by (induction argv arbitrary: res) simp_all

lemma expand_flags_concat: "expand_flags argv = concat (map expand_arg argv)"
  by (simp add: expand_flags_def expand_loop_append)

lemma ventilate_split:
  "ventilate s = map (\<lambda>c. [CHR ''-'', c]) (before_eq s)
     @ (if CHR ''='' \<in> set s then [after_eq s] else [])"
  by (induction s) (simp_all add: before_eq_def after_eq_def)

lemma single_dash_at:
  "single_dash t \<longleftrightarrow> at t 0 = Some CHR ''-'' \<and> at t 1 \<noteq> Some CHR ''-''"
proof (cases t)
  case Nil
  then show ?thesis by (simp add: single_dash_def at_def)
next
  case (Cons a u)
  then show ?thesis by (cases u) (auto simp: single_dash_def at_def)
qed

lemma double_dash_at:
  "take 2 t = ''--'' \<longleftrightarrow> at t 0 = Some CHR ''-'' \<and> at t 1 = Some CHR ''-''"
proof (cases t)
  case Nil
  then show ?thesis by (simp add: at_def)
next
  case (Cons a u)
  then show ?thesis by (cases u) (auto simp: at_def)
qed

lemma slice_first: "slice t 0 (length (takeWhile P t)) = takeWhile P t"
  by (simp add: slice_def takeWhile_eq_take [symmetric])

lemma slice_rest:
  "slice_from t (Suc (length (takeWhile P t))) = drop (Suc 0) (dropWhile P t)"
  by (simp add: slice_from_def dropWhile_eq_drop)

lemma expand_arg_spec: "expand_arg t = spec_split t"
proof -
  consider (single) "single_dash t"
    | (double) "\<not> single_dash t" "double_dash_eq t"
    | (other) "\<not> single_dash t" "\<not> double_dash_eq t"
    by blast
  then show ?thesis
  proof cases
    case single
    then show ?thesis
      using single_dash_at [of t]
      by (simp add: expand_arg_def spec_split_def ventilate_split slice_from_def)
  next
    case double
    then show ?thesis
      using single_dash_at [of t] double_dash_at [of t]
      by (simp add: expand_arg_def spec_split_def double_dash_eq_def Let_def
            slice_first slice_rest before_eq_def after_eq_def)
  next
    case other
    then show ?thesis
      using single_dash_at [of t] double_dash_at [of t]
      by (auto simp add: expand_arg_def spec_split_def double_dash_eq_def)
  qed
qed

lemma expand_arg_fun: "expand_arg = spec_split"
  by (rule ext) (rule expand_arg_spec)

text \<open>
  C5. \<^verbatim>\<open>expand_flags\<close> returns the list in which every token that begins with a single
  dash is replaced by one dash-prefixed token per code unit after the dash up to the first
  \<^verbatim>\<open>=\<close>, followed, when there is an \<^verbatim>\<open>=\<close>, by everything after it as one token; every
  token that begins with two dashes and contains \<^verbatim>\<open>=\<close> is replaced by the part before the
  first \<^verbatim>\<open>=\<close> and the part after it; every other token is kept; the order of the tokens
  is kept. The four examples of the specification evaluate as stated.
\<close>

theorem expand_flags_meets_spec:
  "expand_flags argv = spec_expand_flags argv
   \<and> expand_flags [''-abc''] = [''-a'', ''-b'', ''-c'']
   \<and> expand_flags [''-a=5''] = [''-a'', ''5'']
   \<and> expand_flags [''--foo=bar''] = [''--foo'', ''bar'']
   \<and> expand_flags [''pos''] = [''pos'']"
proof -
  have "expand_flags argv = spec_expand_flags argv"
    by (simp add: expand_flags_concat spec_expand_flags_def expand_arg_fun)
  moreover have "expand_flags [''-abc''] = [''-a'', ''-b'', ''-c'']" by code_simp
  moreover have "expand_flags [''-a=5''] = [''-a'', ''5'']" by code_simp
  moreover have "expand_flags [''--foo=bar''] = [''--foo'', ''bar'']" by code_simp
  moreover have "expand_flags [''pos''] = [''pos'']" by code_simp
  ultimately show ?thesis by simp
qed

theorem expand_flags_meets_spec_witness:
  "expand_flags [''-xz=v=w'', ''--k=a=b'', ''-'', ''--plain'', ''p=q'']
     = [''-x'', ''-z'', ''v=w'', ''--k'', ''a=b'', ''--plain'', ''p=q'']"
proof -
  have "spec_expand_flags [''-xz=v=w'', ''--k=a=b'', ''-'', ''--plain'', ''p=q'']
     = [''-x'', ''-z'', ''v=w'', ''--k'', ''a=b'', ''--plain'', ''p=q'']"
    by code_simp
  then show ?thesis
    using expand_flags_meets_spec [of "[''-xz=v=w'', ''--k=a=b'', ''-'', ''--plain'', ''p=q'']"]
    by simp
qed

section \<open>Primitive handlers and combinators\<close>

lemma set_prop_first: "set_prop k r [] = [(k, r)]"
  by (simp add: set_prop_def)

lemma assign_first: "k \<noteq> ''__proto__'' \<Longrightarrow> assign k r (None, []) = (None, [(k, r)])"
  by (simp add: assign_def set_prop_first)






lemma param_scan_eq:
  "scan (param i acts k) args p acc =
     (if p < length args \<and> args ! p \<in> set (default_activators acts k) then
        Some (Claimed (Group
          (args ! p # (if Suc p < length args \<and> take 1 (args ! Suc p) \<noteq> ''-''
                       then [args ! Suc p] else [])) None))
      else Some NoClaim)"
proof -
  have dash: "starts_dash s \<longleftrightarrow> take 1 s = ''-''" for s
    by (cases s) (simp_all add: starts_dash_def at_def)
  have one: "p < length args \<Longrightarrow> slice args p (Suc p) = [args ! p]"
    by (simp add: slice_def take_Suc_conv_app_nth [of 0] hd_drop_conv_nth take_Suc)
  have two: "Suc p < length args \<Longrightarrow> slice args p (Suc (Suc p)) = [args ! p, args ! Suc p]"
    by (simp add: slice_def Cons_nth_drop_Suc [symmetric])
  show ?thesis
    by (simp add: param_def Let_def at_def dash one two)
qed

text \<open>
  C4. The scan of \<^verbatim>\<open>param(activators).as(key)\<close> at position \<open>p\<close> claims a group iff the
  token at \<open>p\<close> exists and is one of the activators; the group is that token, followed by the
  token at \<open>p + 1\<close> iff that token exists and does not begin with a dash. The value function
  returns \<^verbatim>\<open>undefined\<close> when nothing was claimed or the one claimed group holds no value
  token, the value token of the one claimed group otherwise, and a \<^verbatim>\<open>MatchError\<close> when more
  than one group was claimed.
\<close>

theorem param_scan_and_value:
  "((\<exists>g. scan (param i acts k) args p acc = Some (Claimed g))
      \<longleftrightarrow> p < length args \<and> args ! p \<in> set (default_activators acts k))
   \<and> (scan (param i acts k) args p acc = Some (Claimed g) \<longrightarrow>
        g = Group (args ! p # (if Suc p < length args \<and> take 1 (args ! Suc p) \<noteq> ''-''
                               then [args ! Suc p] else [])) None)
   \<and> value_fn (param i acts k) [] = VOk JUndefined
   \<and> value_fn (param i acts k) [Group [a] e] = VOk JUndefined
   \<and> value_fn (param i acts k) [Group [a, v] e] = VOk (JStr v)
   \<and> (1 < length gs \<longrightarrow>
        value_fn (param i acts k) gs = VFail (only_once (default_activators acts k)))"
proof -
  have "value_fn (param i acts k) [] = VOk JUndefined"
    by (simp add: param_def Let_def group_elem_def at_def)
  moreover have "value_fn (param i acts k) [Group [a] e] = VOk JUndefined"
    by (simp add: param_def Let_def group_elem_def at_def)
  moreover have "value_fn (param i acts k) [Group [a, v] e] = VOk (JStr v)"
    by (simp add: param_def Let_def group_elem_def at_def)
  moreover have "1 < length gs \<longrightarrow>
        value_fn (param i acts k) gs = VFail (only_once (default_activators acts k))"
    by (simp add: param_def Let_def)
  moreover have "(\<exists>g. scan (param i acts k) args p acc = Some (Claimed g))
      \<longleftrightarrow> p < length args \<and> args ! p \<in> set (default_activators acts k)"
    by (simp add: param_scan_eq)
  moreover have "scan (param i acts k) args p acc = Some (Claimed g) \<longrightarrow>
        g = Group (args ! p # (if Suc p < length args \<and> take 1 (args ! Suc p) \<noteq> ''-''
                               then [args ! Suc p] else [])) None"
    by (auto simp add: param_scan_eq)
  ultimately show ?thesis by simp
qed

theorem param_scan_and_value_witness:
  "scan (param 0 [''--out''] ''o'') [''--out'', ''-x''] 0 [] = Some (Claimed (Group [''--out''] None))
   \<and> value_fn (param 0 [''--out''] ''o'') [Group [''--out''] None] = VOk JUndefined
   \<and> scan (param 0 [''--out''] ''o'') [''--out'', ''file.txt''] 0 []
       = Some (Claimed (Group [''--out'', ''file.txt''] None))
   \<and> value_fn (param 0 [''--out''] ''o'') [Group [''--out'', ''file.txt''] None]
       = VOk (JStr ''file.txt'')
   \<and> 1 < length [Group [''--out''] None, Group [''--out''] None]
   \<and> value_fn (param 0 [''--out''] ''o'') [Group [''--out''] None, Group [''--out''] None]
       = VFail (only_once [''--out''])"
proof -
  have acts: "default_activators [''--out''] ''o'' = [''--out'']"
    by (simp add: default_activators_def)
  have flag_next: "\<exists>g. scan (param 0 [''--out''] ''o'') [''--out'', ''-x''] 0 [] = Some (Claimed g)"
    using param_scan_and_value [of 0 "[''--out'']" "''o''" "[''--out'', ''-x'']" 0 "[]"]
    by (simp add: acts)
  have value_next:
    "\<exists>g. scan (param 0 [''--out''] ''o'') [''--out'', ''file.txt''] 0 [] = Some (Claimed g)"
    using param_scan_and_value [of 0 "[''--out'']" "''o''" "[''--out'', ''file.txt'']" 0 "[]"]
    by (simp add: acts)
  from flag_next obtain g1
    where g1: "scan (param 0 [''--out''] ''o'') [''--out'', ''-x''] 0 [] = Some (Claimed g1)" ..
  from value_next obtain g2
    where g2: "scan (param 0 [''--out''] ''o'') [''--out'', ''file.txt''] 0 [] = Some (Claimed g2)" ..
  have "g1 = Group [''--out''] None"
    using g1 param_scan_and_value [of 0 "[''--out'']" "''o''" "[''--out'', ''-x'']" 0 "[]" g1]
    by simp
  moreover have "g2 = Group [''--out'', ''file.txt''] None"
    using g2 param_scan_and_value [of 0 "[''--out'']" "''o''" "[''--out'', ''file.txt'']" 0 "[]" g2]
    by simp
  moreover note g1 g2
  moreover have "value_fn (param 0 [''--out''] ''o'') [Group [''--out''] None] = VOk JUndefined"
    using param_scan_and_value [of 0 "[''--out'']" "''o''"] by blast
  moreover have "value_fn (param 0 [''--out''] ''o'') [Group [''--out'', ''file.txt''] None]
       = VOk (JStr ''file.txt'')"
    using param_scan_and_value [of 0 "[''--out'']" "''o''"] by blast
  moreover have "value_fn (param 0 [''--out''] ''o'') [Group [''--out''] None, Group [''--out''] None]
       = VFail (only_once [''--out''])"
    using param_scan_and_value [of 0 "[''--out'']" "''o''" _ _ _ _ _ _ _
        "[Group [''--out''] None, Group [''--out''] None]"]
    by (simp add: acts)
  ultimately show ?thesis by simp
qed

lemma repeat_loop_spec:
  "repeat_loop v res strs =
     (case find stops (map (\<lambda>s. v [s]) strs) of
        Some f \<Rightarrow> f
      | None \<Rightarrow> VOk (JArr (res @ concat (map present (map (\<lambda>s. v [s]) strs)))))"
proof (induction strs arbitrary: res)
  case Nil
  then show ?case by simp
next
  case (Cons s strs)
  show ?case
  proof (cases "v [s]")
    case (VOk x)
    then show ?thesis using Cons.IH by (simp split: option.split)
  next
    case (VFail m)
    then show ?thesis by simp
  next
    case (VThrow m)
    then show ?thesis by simp
  qed
qed

text \<open>
  C8. The value function of \<^verbatim>\<open>h.repeat()\<close> applies the value function of \<open>h\<close> to each
  claimed group on its own, in claimed order; the first group whose extraction is a
  \<^verbatim>\<open>MatchError\<close> (or throws) ends the extraction with that result and no sequence;
  otherwise the result is the sequence of the present results, in claimed order.
\<close>

theorem repeat_value_meets_spec:
  "value_fn (repeat i h) strs = spec_repeat_value (value_fn h) strs"
  by (simp add: repeat_def derive_def spec_repeat_value_def repeat_loop_spec Let_def
      split: option.split)

theorem repeat_value_meets_spec_witness:
  "value_fn (repeat 1 (param 0 [''-I''] ''inc''))
       [Group [''-I'', ''a''] None, Group [''-I''] None, Group [''-I'', ''b''] None]
     = VOk (JArr [JStr ''a'', JStr ''b''])
   \<and> value_fn (repeat 3 (required 2 (param 0 [''-I''] ''inc'')))
       [Group [''-I'', ''a''] None, Group [''-I''] None, Group [''-I'', ''b''] None]
     = VFail (must_be_specified (param 0 [''-I''] ''inc''))"
proof -
  have "spec_repeat_value (value_fn (param 0 [''-I''] ''inc''))
       [Group [''-I'', ''a''] None, Group [''-I''] None, Group [''-I'', ''b''] None]
     = VOk (JArr [JStr ''a'', JStr ''b''])"
    by code_simp
  moreover have "spec_repeat_value (value_fn (required 2 (param 0 [''-I''] ''inc'')))
       [Group [''-I'', ''a''] None, Group [''-I''] None, Group [''-I'', ''b''] None]
     = VFail (must_be_specified (param 0 [''-I''] ''inc''))"
    by code_simp
  ultimately show ?thesis
    using repeat_value_meets_spec [of 1 "param 0 [''-I''] ''inc''"]
      repeat_value_meets_spec [of 3 "required 2 (param 0 [''-I''] ''inc'')"]
    by simp
qed

section \<open>Alternatives\<close>

lemma oneof_scan_all_fail:
  "map (\<lambda>q. doScan q args pos) opt = map (\<lambda>m. Some (Inl m)) msgs \<Longrightarrow>
   oneof_scan wm opt args pos errors = Some (SFail (join '', '' (errors @ msgs)))"
proof (induction opt arbitrary: errors msgs)
  case Nil
  then show ?case by simp
next
  case (Cons q opt)
  then obtain m ms where msgs: "msgs = m # ms"
    by (cases msgs) auto
  with Cons.prems have "doScan q args pos = Some (Inl m)"
    and "map (\<lambda>q. doScan q args pos) opt = map (\<lambda>m. Some (Inl m)) ms"
    by simp_all
  then show ?case
    using Cons.IH [of ms "errors @ [m]"] msgs by simp
qed

lemma oneof_scan_first_match:
  "\<forall>q \<in> set pre. \<exists>m. doScan q args pos = Some (Inl m) \<Longrightarrow>
   doScan p args pos = Some (Inr (pos', mr)) \<Longrightarrow>
   oneof_scan wm (pre @ p # post) args pos errors =
     Some (Claimed (Group (slice args pos pos') (Some (wm, doValues p mr))))"
proof (induction pre arbitrary: errors)
  case Nil
  then show ?case by simp
next
  case (Cons q pre)
  then obtain m where "doScan q args pos = Some (Inl m)"
    by auto
  then show ?case
    using Cons by simp
qed

text \<open>
  C6. The scan of a \<^verbatim>\<open>oneof\<close> handler runs the full scan of each sub-parser at the current
  position, in the listed order. When the sub-parsers before \<open>p\<close> fail and the scan of \<open>p\<close>
  succeeds with position \<open>pos'\<close> and accumulators \<open>mr\<close>, the handler claims the tokens from
  the position up to \<open>pos'\<close>, and the value extracted from that one group is the extraction
  of \<open>p\<close> over \<open>mr\<close>. When every sub-parser fails, the scan returns the \<^verbatim>\<open>MatchError\<close>
  whose message is the sub-parsers' messages joined by a comma and a space.
\<close>

theorem oneof_first_match_wins:
  "((\<forall>q \<in> set pre. \<exists>m. doScan q args pos = Some (Inl m))
      \<and> doScan p args pos = Some (Inr (pos', mr)) \<longrightarrow>
    (\<exists>g. scan (oneof i (pre @ p # post) k) args pos acc = Some (Claimed g)
        \<and> toks g = slice args pos pos'
        \<and> value_fn (oneof i (pre @ p # post) k) [g] = doValues p mr))
   \<and> (map (\<lambda>q. doScan q args pos) opt = map (\<lambda>m. Some (Inl m)) msgs \<longrightarrow>
        scan (oneof i opt k) args pos acc = Some (SFail (join '', '' msgs)))"
proof (intro conjI impI)
  assume "(\<forall>q \<in> set pre. \<exists>m. doScan q args pos = Some (Inl m))
      \<and> doScan p args pos = Some (Inr (pos', mr))"
  then have "scan (oneof i (pre @ p # post) k) args pos acc =
     Some (Claimed (Group (slice args pos pos') (Some (i, doValues p mr))))"
    by (simp add: oneof_def oneof_scan_first_match)
  moreover have "value_fn (oneof i (pre @ p # post) k)
      [Group (slice args pos pos') (Some (i, doValues p mr))] = doValues p mr"
    by (simp add: oneof_def oneof_value_def)
  ultimately show "\<exists>g. scan (oneof i (pre @ p # post) k) args pos acc = Some (Claimed g)
        \<and> toks g = slice args pos pos'
        \<and> value_fn (oneof i (pre @ p # post) k) [g] = doValues p mr"
    by simp
next
  assume "map (\<lambda>q. doScan q args pos) opt = map (\<lambda>m. Some (Inl m)) msgs"
  then show "scan (oneof i opt k) args pos acc = Some (SFail (join '', '' msgs))"
    using oneof_scan_all_fail [of args pos opt msgs i "[]"] by (simp add: oneof_def)
qed

theorem oneof_first_match_wins_witness:
  "(\<exists>g. scan (oneof 0 [[expect 1 ''nope'' ''a''], [expect 2 ''lit'' ''b'']] ''k'') [''lit''] 0 []
          = Some (Claimed g)
      \<and> toks g = [''lit'']
      \<and> value_fn (oneof 0 [[expect 1 ''nope'' ''a''], [expect 2 ''lit'' ''b'']] ''k'') [g]
          = VOk (JObj None [(''b'', JStr ''lit'')]))
   \<and> scan (oneof 0 [[expect 1 ''nope'' ''a''], [expect 2 ''nay'' ''b'']] ''k'') [''lit''] 0 []
       = Some (SFail (''expected '' @ dq @ ''nope'' @ dq @ '', expected '' @ dq @ ''nay'' @ dq))"
proof -
  let ?mr = "(\<lambda>_. [])(2 := [Group [''lit''] None])"
  have first: "doScan [expect 1 ''nope'' ''a''] [''lit''] 0 = Some (Inl (''expected '' @ dq @ ''nope'' @ dq))"
    by (simp add: doScan_def scanargs.simps expect_def at_def)
  have second: "doScan [expect 2 ''lit'' ''b''] [''lit''] 0 = Some (Inr (1, ?mr))"
    by (simp add: doScan_def scanargs.simps expect_def at_def)
  have other: "doScan [expect 2 ''nay'' ''b''] [''lit''] 0 = Some (Inl (''expected '' @ dq @ ''nay'' @ dq))"
    by (simp add: doScan_def scanargs.simps expect_def at_def)
  have extracted: "doValues [expect 2 ''lit'' ''b''] ?mr = VOk (JObj None [(''b'', JStr ''lit'')])"
    by (simp add: doValues_def expect_def assign_first)
  have tokens: "slice [''lit''] 0 1 = [''lit'']"
    by (simp add: slice_def)
  have joined: "join '', '' [''expected '' @ dq @ ''nope'' @ dq, ''expected '' @ dq @ ''nay'' @ dq]
      = ''expected '' @ dq @ ''nope'' @ dq @ '', expected '' @ dq @ ''nay'' @ dq"
    by simp
  have "\<exists>g. scan (oneof 0 ([[expect 1 ''nope'' ''a'']] @ [expect 2 ''lit'' ''b''] # []) ''k'') [''lit''] 0 []
          = Some (Claimed g)
      \<and> toks g = [''lit'']
      \<and> value_fn (oneof 0 ([[expect 1 ''nope'' ''a'']] @ [expect 2 ''lit'' ''b''] # []) ''k'') [g]
          = VOk (JObj None [(''b'', JStr ''lit'')])"
    using oneof_first_match_wins [of "[[expect 1 ''nope'' ''a'']]" "[''lit'']" 0
        "[expect 2 ''lit'' ''b'']" 1 ?mr 0 "[]" "''k''" "[]"]
      first second extracted tokens
    by simp
  moreover have "scan (oneof 0 [[expect 1 ''nope'' ''a''], [expect 2 ''nay'' ''b'']] ''k'') [''lit''] 0 []
       = Some (SFail (''expected '' @ dq @ ''nope'' @ dq @ '', expected '' @ dq @ ''nay'' @ dq))"
    using oneof_first_match_wins [of _ "[''lit'']" 0 _ _ _ 0 _ "''k''" "[]"
        "[[expect 1 ''nope'' ''a''], [expect 2 ''nay'' ''b'']]"
        "[''expected '' @ dq @ ''nope'' @ dq, ''expected '' @ dq @ ''nay'' @ dq]"]
      first other joined
    by simp
  ultimately show ?thesis by simp
qed

text \<open>
  C2. The scan of \<^verbatim>\<open>oneof\<close> does not look at its accumulator, so the handler claims again
  at every position where a sub-parser matches. On \<^verbatim>\<open>["p", "q"]\<close> the parser
  \<^verbatim>\<open>optparser(oneof(optparser(arg("x"))).as("k"))\<close> ends its scan at position 2 with the two
  groups \<^verbatim>\<open>["p"]\<close> and \<^verbatim>\<open>["q"]\<close> in the accumulator of the \<^verbatim>\<open>oneof\<close> handler, and
  \<^verbatim>\<open>parse\<close> ends in the thrown \<^verbatim>\<open>Error("?!")\<close>.
\<close>

theorem oneof_claims_twice_and_throws:
  "run_summary [oneof 0 [[arg 1 ''x'']] ''k''] [''p'', ''q''] 0 [0] = Some (Inr (2, [[[''p''], [''q'']]]))
   \<and> parse [oneof 0 [[arg 1 ''x'']] ''k''] [''p'', ''q''] = Some (Thrown ''?!'')"
  by code_simp

section \<open>The scanning loop\<close>

text \<open>
  C1. With the two positional handlers declared before a flag handler, a flag token that
  comes first in the input is claimed by \<^verbatim>\<open>arg("a")\<close>: on \<^verbatim>\<open>["--v", "x", "y"]\<close> the scan
  stops at position 2 with \<^verbatim>\<open>a = "--v"\<close>, \<^verbatim>\<open>b = "x"\<close>, and \<^verbatim>\<open>parse\<close> reports \<^verbatim>\<open>"y"\<close> as an
  unrecognized argument. With the flag handler declared first the same input binds
  \<^verbatim>\<open>a = "x"\<close>, \<^verbatim>\<open>b = "y"\<close>.
\<close>

theorem arg_claims_flag_token:
  "run_summary [arg 0 ''a'', arg 1 ''b'', flag 2 [''--v''] ''v''] [''--v'', ''x'', ''y''] 0 [0, 1, 2]
     = Some (Inr (2, [[[''--v'']], [[''x'']], []]))
   \<and> parse [arg 0 ''a'', arg 1 ''b'', flag 2 [''--v''] ''v''] [''--v'', ''x'', ''y'']
     = Some (Unrecognized (Some ''y''))
   \<and> parse [flag 2 [''--v''] ''v'', arg 0 ''a'', arg 1 ''b''] [''--v'', ''x'', ''y'']
     = Some (Returned (JObj None [(''v'', JBool True), (''a'', JStr ''x''), (''b'', JStr ''y'')]))"
  by code_simp

lemma try_handlers_none:
  "\<forall>h \<in> set hs. scan h args pos (mr (hid h)) = Some NoClaim \<Longrightarrow>
   try_handlers hs args pos mr = Some PNone"
  by (induction hs) simp_all

text \<open>
  C3, as the code has it. When no handler claims the token \<^verbatim>\<open>"--unknown"\<close> (every scan at
  position 0 returns \<^verbatim>\<open>undefined\<close>), \<^verbatim>\<open>parse(["--unknown"])\<close> fails at the top level with
  the thrown error \<^verbatim>\<open>"match error: nothing was consumed"\<close>: it does not return a result, and
  it does not reach the report of an unrecognized argument.
\<close>

theorem unknown_token_nothing_consumed:
  "\<forall>h \<in> set hs. scan h [''--unknown''] 0 [] = Some NoClaim \<Longrightarrow>
   parse hs [''--unknown''] = Some (Thrown ''match error: nothing was consumed'')"
proof -
  assume none: "\<forall>h \<in> set hs. scan h [''--unknown''] 0 [] = Some NoClaim"
  have args: "expand_flags [''--unknown''] = [''--unknown'']"
    by code_simp
  have "try_handlers hs [''--unknown''] 0 (\<lambda>_. []) = Some PNone"
    using none by (simp add: try_handlers_none)
  then have "scanargs hs [''--unknown''] 0 (\<lambda>_. []) = Some (Inr (0, \<lambda>_. []))"
    by (subst scanargs.simps) simp
  then have "doScan hs [''--unknown''] 0 = Some (Inl nothing_consumed)"
    by (simp add: doScan_def)
  then show ?thesis
    by (simp add: parse_def args nothing_consumed_def)
qed

theorem unknown_token_nothing_consumed_witness:
  "scan (flag 0 [''--verbose''] ''v'') [''--unknown''] 0 [] = Some NoClaim
   \<and> scan (param 1 [''--out''] ''o'') [''--unknown''] 0 [] = Some NoClaim
   \<and> parse [flag 0 [''--verbose''] ''v'', param 1 [''--out''] ''o''] [''--unknown'']
       = Some (Thrown ''match error: nothing was consumed'')"
proof -
  have f: "scan (flag 0 [''--verbose''] ''v'') [''--unknown''] 0 [] = Some NoClaim"
    by code_simp
  have p: "scan (param 1 [''--out''] ''o'') [''--unknown''] 0 [] = Some NoClaim"
    by code_simp
  from f p show ?thesis
    using unknown_token_nothing_consumed [of "[flag 0 [''--verbose''] ''v'', param 1 [''--out''] ''o'']"]
    by simp
qed

text \<open>C3, as the specification states it (failure through the report of an unrecognized
  argument), does not hold for the parser with the one handler
  \<^verbatim>\<open>flag("--verbose").as("v")\<close>: its scan claims nothing, and \<^verbatim>\<open>parse\<close> throws the
  match error.\<close>

theorem unknown_token_counterexample:
  "scan (flag 0 [''--verbose''] ''v'') [''--unknown''] 0 [] = Some NoClaim
   \<and> parse [flag 0 [''--verbose''] ''v''] [''--unknown'']
       = Some (Thrown ''match error: nothing was consumed'')
   \<and> parse [flag 0 [''--verbose''] ''v''] [''--unknown'']
       \<noteq> Some (Unrecognized (Some ''--unknown''))"
  by code_simp






section \<open>Invariants of a scan run\<close>





















end
